theory Spec2Isabelle
  imports Complex_Main
begin

section \<open>Text\<close>

text \<open>
  Text is a \<^typ>\<open>string\<close>: the UTF-8 bytes of the JavaScript string. The frame delimiter,
  the data prefix and every literal the code compares against are ASCII, and a byte below
  128 never occurs inside the encoding of another code point, so searching and slicing by
  these literals is the same on the bytes as on the code units.
\<close>

definition nl :: char where
  "nl = CHR 0x0A"

text \<open>
  \<^verbatim>\<open>buffer.split('\n\n')\<close> (api.ts, line 96): the occurrences of the separator are
  found from the left, never overlapping; the pieces between them are returned, one more
  than there are occurrences. The result of \<^verbatim>\<open>split\<close> is never empty; the
  \<open>[]\<close> branch below is there for totality only.
\<close>

fun js_split :: "string \<Rightarrow> string list" where
  "js_split (a # b # cs) =
     (if a = nl \<and> b = nl then [] # js_split cs
      else (case js_split (b # cs) of [] \<Rightarrow> [ [a] ] | p # ps \<Rightarrow> (a # p) # ps))"
| "js_split s = [s]"

text \<open>\<^verbatim>\<open>pieces.join('\n\n')\<close>, the inverse of the split.\<close>

fun js_join :: "string list \<Rightarrow> string" where
  "js_join [] = []"
| "js_join [p] = p"
| "js_join (p # q # ps) = p @ [nl, nl] @ js_join (q # ps)"

text \<open>Whether the separator occurs in a text: \<^verbatim>\<open>s.includes('\n\n')\<close>.\<close>

fun has_delimiter :: "string \<Rightarrow> bool" where
  "has_delimiter (a # b # cs) = ((a = nl \<and> b = nl) \<or> has_delimiter (b # cs))"
| "has_delimiter s = False"

text \<open>\<^verbatim>\<open>s.startsWith(p)\<close>.\<close>

definition starts_with :: "string \<Rightarrow> string \<Rightarrow> bool" where
  "starts_with p s = (take (length p) s = p)"

text \<open>
  \<^verbatim>\<open>s.trim()\<close> removes, at both ends, the code points JavaScript counts as white
  space or line terminators: U+0009 to U+000D, U+0020, U+00A0, U+1680, U+2000 to U+200A,
  U+2028, U+2029, U+202F, U+205F, U+3000 and U+FEFF, here in their UTF-8 encodings.
\<close>

definition white_space :: "string list" where
  "white_space =
     [ [CHR 0x09], [CHR 0x0A], [CHR 0x0B], [CHR 0x0C], [CHR 0x0D], [CHR 0x20],
      [CHR 0xC2, CHR 0xA0],
      [CHR 0xE1, CHR 0x9A, CHR 0x80],
      [CHR 0xE2, CHR 0x80, CHR 0x80], [CHR 0xE2, CHR 0x80, CHR 0x81],
      [CHR 0xE2, CHR 0x80, CHR 0x82], [CHR 0xE2, CHR 0x80, CHR 0x83],
      [CHR 0xE2, CHR 0x80, CHR 0x84], [CHR 0xE2, CHR 0x80, CHR 0x85],
      [CHR 0xE2, CHR 0x80, CHR 0x86], [CHR 0xE2, CHR 0x80, CHR 0x87],
      [CHR 0xE2, CHR 0x80, CHR 0x88], [CHR 0xE2, CHR 0x80, CHR 0x89],
      [CHR 0xE2, CHR 0x80, CHR 0x8A],
      [CHR 0xE2, CHR 0x80, CHR 0xA8], [CHR 0xE2, CHR 0x80, CHR 0xA9],
      [CHR 0xE2, CHR 0x80, CHR 0xAF],
      [CHR 0xE2, CHR 0x81, CHR 0x9F],
      [CHR 0xE3, CHR 0x80, CHR 0x80],
      [CHR 0xEF, CHR 0xBB, CHR 0xBF] ]"

fun strip :: "string list \<Rightarrow> string \<Rightarrow> string" where
  "strip ws [] = []"
| "strip ws (c # cs) =
     (case find (\<lambda>w. starts_with w (c # cs)) ws of
        None \<Rightarrow> c # cs
      | Some w \<Rightarrow> strip ws (drop (length w - 1) cs))"

definition trim :: "string \<Rightarrow> string" where
  "trim s = rev (strip (map rev white_space) (rev (strip white_space s)))"

text \<open>The decimal digits of a number, as a template literal prints \<^verbatim>\<open>Date.now()\<close>.\<close>

fun string_of_nat :: "nat \<Rightarrow> string" where
  "string_of_nat n =
     (if n < 10 then [char_of (48 + n)]
      else string_of_nat (n div 10) @ [char_of (48 + n mod 10)])"

declare string_of_nat.simps [simp del]

section \<open>Decoded payloads\<close>

text \<open>
  A value that \<^verbatim>\<open>JSON.parse\<close> or \<^verbatim>\<open>res.json()\<close> returns. The code never
  computes with a decoded number, so a number is kept as the text JavaScript prints for it.
  An object is the list of its own properties. \<^verbatim>\<open>undefined\<close>, the value of a
  property that is not there, is \<open>None\<close> in \<open>json option\<close>.
\<close>

datatype json =
    JNull
  | JBool bool
  | JNum string
  | JStr string
  | JArr "json list"
  | JObj "(string \<times> json) list"

text \<open>
  Reading a property \<^verbatim>\<open>v.k\<close> of a value that is not \<^verbatim>\<open>null\<close>, for the keys the
  code reads (\<^verbatim>\<open>type\<close>, \<^verbatim>\<open>message\<close>, \<^verbatim>\<open>detail\<close>): only an object has them.
  On \<^verbatim>\<open>null\<close> the access throws; the callers below test for \<open>JNull\<close> first.
\<close>

fun get_prop :: "json \<Rightarrow> string \<Rightarrow> json option" where
  "get_prop (JObj kv) k = map_of kv k"
| "get_prop _ k = None"

fun comma_join :: "string list \<Rightarrow> string" where
  "comma_join [] = []"
| "comma_join [p] = p"
| "comma_join (p # q # ps) = p @ '','' @ comma_join (q # ps)"

text \<open>
  The text of a value where a string is wanted (a template literal, \<^verbatim>\<open>+=\<close> on a
  string). The callbacks of \<^verbatim>\<open>ChatSSECallbacks\<close> are declared to take a string, and
  the decoded payload is untyped; the model converts where the value is handed over, which
  is the identity on a payload that is a string. On a payload that is not a string the
  conversion is what the code itself does for \<^verbatim>\<open>error\<close> (a template literal) and for
  \<^verbatim>\<open>stream_token\<close> (\<^verbatim>\<open>+=\<close> on a string); for \<^verbatim>\<open>full_response\<close> the code keeps
  the value as it is, against the declared type, and the model keeps its text.
\<close>

fun js_string :: "json \<Rightarrow> string" where
  "js_string JNull = ''null''"
| "js_string (JBool b) = (if b then ''true'' else ''false'')"
| "js_string (JNum s) = s"
| "js_string (JStr s) = s"
| "js_string (JArr xs) = comma_join (map (\<lambda>x. if x = JNull then [] else js_string x) xs)"
| "js_string (JObj kv) = ''[object Object]''"

definition js_text :: "json option \<Rightarrow> string" where
  "js_text v = (case v of None \<Rightarrow> ''undefined'' | Some j \<Rightarrow> js_string j)"

text \<open>Truthiness, for \<^verbatim>\<open>err.detail || res.statusText\<close>.\<close>

fun truthy :: "json option \<Rightarrow> bool" where
  "truthy None = False"
| "truthy (Some JNull) = False"
| "truthy (Some (JBool b)) = b"
| "truthy (Some (JNum s)) = (s \<noteq> ''0'')"
| "truthy (Some (JStr s)) = (s \<noteq> [])"
| "truthy (Some (JArr xs)) = True"
| "truthy (Some (JObj kv)) = True"

section \<open>Data model\<close>

text \<open>types.ts. A \<^verbatim>\<open>TraceEvent\<close> is whatever was decoded: the cast in api.ts checks nothing.\<close>

datatype role = User | Assistant | System

record conversation =
  conv_id :: string
  title :: string
  created_at :: real
  updated_at :: real

record message =
  msg_id :: string
  conversation_id :: string
  role :: role
  content :: string
  sources :: "string list"
  agent_trace :: "json list"
  timestamp :: real

text \<open>
  The requests a function sends without waiting for the answer before it goes on. An
  answer that the function awaits is a parameter of the function instead.
\<close>

datatype request =
    PostChat string string
  | GetMessages string
  | ListConversations
  | GetHealth

text \<open>
  The state of the \<^verbatim>\<open>App\<close> component (lines 59 to 64). \<^verbatim>\<open>activeConvRef.current\<close> is
  assigned \<^verbatim>\<open>activeConvId\<close> at every render and wherever the code sets the one it sets
  the other, so the two are one field. \<open>requests\<close> is the log of the requests sent.
\<close>

record app_state =
  conversations :: "conversation list"
  activeConvId :: "string option"
  messages :: "message list"
  isLoading :: bool
  streamingContent :: string
  liveTrace :: "json list"
  requests :: "request list"

text \<open>
  What one call of \<^verbatim>\<open>sendMessage\<close> keeps in its own closure: the conversation id it
  was given (line 202) and \<^verbatim>\<open>fullResponse\<close> (line 221).
\<close>

record session =
  s_convId :: string
  fullResponse :: string

section \<open>Frame decoder\<close>

text \<open>
  One pass of the body of the read loop (api.ts, lines 95 to 97):
  \<^verbatim>\<open>buffer += decoder.decode(value, { stream: true });
  const lines = buffer.split('\n\n');
  buffer = lines.pop() || '';\<close>
  The streaming \<^verbatim>\<open>TextDecoder\<close> is a platform function. It hands over the text of
  the bytes read so far and keeps back the bytes of a code point that is not complete yet,
  so the pieces it returns, put together, are the text of the stream whatever the chunks
  were. The model starts from these pieces: a chunk is a piece of text.
  \<^verbatim>\<open>pop\<close> on an empty array gives \<^verbatim>\<open>undefined\<close>, which \<^verbatim>\<open>|| ''\<close> turns
  into the empty string.
\<close>

definition feed :: "string \<Rightarrow> string \<Rightarrow> string list \<times> string" where
  "feed buffer chunk =
     (let lines = js_split (buffer @ chunk)
      in case rev lines of [] \<Rightarrow> ([], []) | l # ls \<Rightarrow> (rev ls, l))"

text \<open>
  The read loop (api.ts, lines 91 to 122), for any treatment \<open>h\<close> of a line: the chunks are
  taken in order, every complete line of a chunk is handed to \<open>h\<close> before the next read,
  and the loop ends when the reader reports the end of the stream. What is left in the
  buffer then is returned here beside the state; the code drops it.
\<close>

fun read_loop :: "(string \<Rightarrow> 's \<Rightarrow> 's) \<Rightarrow> string \<Rightarrow> string list \<Rightarrow> 's \<Rightarrow> string \<times> 's" where
  "read_loop h buffer [] st = (buffer, st)"
| "read_loop h buffer (chunk # chunks) st =
     (case feed buffer chunk of
        (lines, buffer') \<Rightarrow> read_loop h buffer' chunks (fold h lines st))"

text \<open>The frames the loop emits, in order, and the text pending at the end.\<close>

definition frames_of :: "string list \<Rightarrow> string list" where
  "frames_of chunks = snd (read_loop (\<lambda>l acc. acc @ [l]) [] chunks [])"

definition pending_of :: "string list \<Rightarrow> string" where
  "pending_of chunks = fst (read_loop (\<lambda>l acc. acc @ [l]) [] chunks [])"

section \<open>Event classifier\<close>

text \<open>The five callbacks of \<^verbatim>\<open>ChatSSECallbacks\<close> (api.ts, lines 57 to 63), as data.\<close>

datatype event =
    Done
  | Error string
  | FullResponse string
  | StreamToken string
  | Trace json

definition data_prefix :: string where
  "data_prefix = ''data: ''"

text \<open>
  The body of the loop over the lines (api.ts, lines 100 to 120), up to the choice of the
  callback. \<open>parse\<close> is \<^verbatim>\<open>JSON.parse\<close>, with \<open>None\<close> where it throws. On
  \<^verbatim>\<open>null\<close>, reading \<^verbatim>\<open>data.type\<close> throws inside the same \<^verbatim>\<open>try\<close>. In both
  cases the \<^verbatim>\<open>catch\<close> is empty and the loop goes on with the next line.
\<close>

definition classify :: "(string \<Rightarrow> json option) \<Rightarrow> string \<Rightarrow> event option" where
  "classify parse line =
     (let trimmed = trim line
      in if \<not> starts_with data_prefix trimmed then None
         else (case parse (drop 6 trimmed) of
                 None \<Rightarrow> None
               | Some data \<Rightarrow>
                   if data = JNull then None
                   else if get_prop data ''type'' = Some (JStr ''done'') then Some Done
                   else if get_prop data ''type'' = Some (JStr ''error'')
                     then Some (Error (js_text (get_prop data ''message'')))
                   else if get_prop data ''type'' = Some (JStr ''full_response'')
                     then Some (FullResponse (js_text (get_prop data ''message'')))
                   else if get_prop data ''type'' = Some (JStr ''stream_token'')
                     then Some (StreamToken (js_text (get_prop data ''message'')))
                   else Some (Trace data)))"

section \<open>Conversation store\<close>

text \<open>
  \<^verbatim>\<open>loadMessages\<close> (lines 123 to 130) sends the request; when the answer comes,
  \<open>loadMessages_resolved\<close> stores it, or leaves the state as it is when the request failed
  (\<open>None\<close>). The same for \<^verbatim>\<open>loadConversations\<close> (lines 105 to 112) and
  \<^verbatim>\<open>loadVectorStats\<close>, whose answer touches no field of the model.
\<close>

definition loadMessages :: "string \<Rightarrow> app_state \<Rightarrow> app_state" where
  "loadMessages convId st = st\<lparr>requests := requests st @ [GetMessages convId]\<rparr>"

definition loadMessages_resolved :: "message list option \<Rightarrow> app_state \<Rightarrow> app_state" where
  "loadMessages_resolved res st =
     (case res of None \<Rightarrow> st | Some msgs \<Rightarrow> st\<lparr>messages := msgs\<rparr>)"

definition loadConversations :: "app_state \<Rightarrow> app_state" where
  "loadConversations st = st\<lparr>requests := requests st @ [ListConversations]\<rparr>"

definition loadConversations_resolved :: "conversation list option \<Rightarrow> app_state \<Rightarrow> app_state" where
  "loadConversations_resolved res st =
     (case res of None \<Rightarrow> st | Some convs \<Rightarrow> st\<lparr>conversations := convs\<rparr>)"

definition loadVectorStats :: "app_state \<Rightarrow> app_state" where
  "loadVectorStats st = st\<lparr>requests := requests st @ [GetHealth]\<rparr>"

text \<open>
  The effect run on mount (lines 85 to 103). It starts \<^verbatim>\<open>api.listConversations()\<close>
  and, without waiting, calls \<^verbatim>\<open>loadVectorStats()\<close> (line 102); the rest runs when the
  list is answered (\<open>res\<close>, \<open>None\<close> when the request failed). The messages of the
  selected conversation arrive through \<open>loadMessages_resolved\<close>.
\<close>

definition mount_load :: "conversation list option \<Rightarrow> app_state \<Rightarrow> app_state" where
  "mount_load res st =
     (let st0 = loadVectorStats st
      in case res of
           None \<Rightarrow> st0
         | Some convs \<Rightarrow>
             (let st1 = st0\<lparr>conversations := convs\<rparr>
              in case convs of
                   [] \<Rightarrow> st1
                 | mostRecent # _ \<Rightarrow>
                     loadMessages (conv_id mostRecent)
                       (st1\<lparr>activeConvId := Some (conv_id mostRecent)\<rparr>)))"

text \<open>\<^verbatim>\<open>selectConversation\<close> (lines 133 to 141).\<close>

definition selectConversation :: "string \<Rightarrow> app_state \<Rightarrow> app_state" where
  "selectConversation i st =
     loadMessages i (st\<lparr>activeConvId := Some i, streamingContent := [], liveTrace := []\<rparr>)"

text \<open>
  \<^verbatim>\<open>newConversation\<close> (lines 145 to 159), given the answer of
  \<^verbatim>\<open>api.createConversation()\<close> (\<open>None\<close> when it throws).
\<close>

definition newConversation :: "conversation option \<Rightarrow> app_state \<Rightarrow> string option \<times> app_state" where
  "newConversation created st =
     (case created of
        None \<Rightarrow> (None, st)
      | Some conv \<Rightarrow>
          (Some (conv_id conv),
           st\<lparr>conversations := conv # conversations st,
              activeConvId := Some (conv_id conv),
              messages := [],
              streamingContent := [],
              liveTrace := []\<rparr>))"

text \<open>
  \<^verbatim>\<open>renameConversation\<close> (lines 162 to 173); \<open>ok\<close> tells whether the awaited request
  succeeded, \<open>now\<close> is \<^verbatim>\<open>Date.now()\<close>, in milliseconds.
\<close>

definition renameConversation :: "bool \<Rightarrow> nat \<Rightarrow> string \<Rightarrow> string \<Rightarrow> app_state \<Rightarrow> app_state" where
  "renameConversation ok now i new_title st =
     (if \<not> ok then st
      else st\<lparr>conversations :=
                map (\<lambda>c. if conv_id c = i
                          then c\<lparr>title := new_title, updated_at := real now / 1000\<rparr>
                          else c)
                    (conversations st)\<rparr>)"

text \<open>\<^verbatim>\<open>deleteConversation\<close> (lines 176 to 198).\<close>

definition deleteConversation :: "bool \<Rightarrow> string \<Rightarrow> app_state \<Rightarrow> app_state" where
  "deleteConversation ok i st =
     (if \<not> ok then st
      else (let remaining = filter (\<lambda>c. conv_id c \<noteq> i) (conversations st);
                st1 = (if activeConvId st = Some i
                       then (case remaining of
                               c # _ \<Rightarrow> loadMessages (conv_id c) (st\<lparr>activeConvId := Some (conv_id c)\<rparr>)
                             | [] \<Rightarrow> st\<lparr>activeConvId := None, messages := []\<rparr>)
                       else st)
            in st1\<lparr>conversations := remaining\<rparr>))"

text \<open>The order the store is meant to keep: most recently updated first.\<close>

definition sorted_desc :: "conversation list \<Rightarrow> bool" where
  "sorted_desc convs = sorted_wrt (\<lambda>a b. updated_at b \<le> updated_at a) convs"

section \<open>Chat session controller\<close>

text \<open>
  The first, synchronous part of \<^verbatim>\<open>sendMessage\<close> (lines 201 to 223), up to the
  \<^verbatim>\<open>fetch\<close> that \<^verbatim>\<open>sendChatMessage\<close> starts with. \<^verbatim>\<open>!convId\<close> holds for
  \<^verbatim>\<open>null\<close> and for the empty string. \<^verbatim>\<open>sendMessage\<close> is made anew at every
  render, and the \<^verbatim>\<open>isLoading\<close> of its guard (line 203) is the constant of the render
  that made it, not the state at the time of the call: it is the parameter \<open>seen\<close>. The
  conversation id comes through a ref (lines 80 to 82) and is read from the state at the
  time of the call, as are the state updates, which are functions of the latest state.
  The result is the session that was started, if any, and the state.
\<close>

definition error_prefix :: string where
  "error_prefix = [CHR 0xE2, CHR 0x9D, CHR 0x8C] @ '' Error: ''"

definition user_message :: "nat \<Rightarrow> string \<Rightarrow> string \<Rightarrow> message" where
  "user_message now convId text =
     \<lparr>msg_id = ''temp-'' @ string_of_nat now,
      conversation_id = convId,
      role = User,
      content = text,
      sources = [],
      agent_trace = [],
      timestamp = real now / 1000\<rparr>"

definition error_message :: "nat \<Rightarrow> string \<Rightarrow> string \<Rightarrow> message" where
  "error_message now convId err =
     \<lparr>msg_id = ''err-'' @ string_of_nat now,
      conversation_id = convId,
      role = Assistant,
      content = error_prefix @ err,
      sources = [],
      agent_trace = [],
      timestamp = real now / 1000\<rparr>"

definition sendMessage_begin ::
  "nat \<Rightarrow> bool \<Rightarrow> string \<Rightarrow> string option \<Rightarrow> app_state \<Rightarrow> session option \<times> app_state" where
  "sendMessage_begin now seen text explicitConvId st =
     (case (case explicitConvId of Some c \<Rightarrow> Some c | None \<Rightarrow> activeConvId st) of
        None \<Rightarrow> (None, st)
      | Some convId \<Rightarrow>
          if convId = [] \<or> seen then (None, st)
          else (Some \<lparr>s_convId = convId, fullResponse = []\<rparr>,
                st\<lparr>messages := messages st @ [user_message now convId text],
                   isLoading := True,
                   streamingContent := [],
                   liveTrace := [],
                   requests := requests st @ [PostChat convId text]\<rparr>))"

text \<open>
  \<^verbatim>\<open>handleSendNoConv\<close> (lines 310 to 315), from the answer of
  \<^verbatim>\<open>api.createConversation()\<close> on. The handler and the \<^verbatim>\<open>sendMessage\<close> it calls
  belong to the render in which the user submitted, so \<open>seen\<close> is the
  \<^verbatim>\<open>isLoading\<close> of that render, while \<open>st\<close> is the state when the answer arrives.
\<close>

definition handleSendNoConv_begin ::
  "nat \<Rightarrow> bool \<Rightarrow> conversation option \<Rightarrow> string \<Rightarrow> app_state \<Rightarrow> session option \<times> app_state" where
  "handleSendNoConv_begin now seen created text st =
     (case newConversation created st of
        (None, st') \<Rightarrow> (None, st')
      | (Some newId, st') \<Rightarrow>
          if newId = [] then (None, st')
          else sendMessage_begin now seen text (Some newId) st')"

text \<open>The callbacks (lines 224 to 260), each on the session and the state.\<close>

definition onTrace :: "json \<Rightarrow> session \<times> app_state \<Rightarrow> session \<times> app_state" where
  "onTrace ev = (\<lambda>(ss, st). (ss, st\<lparr>liveTrace := liveTrace st @ [ev]\<rparr>))"

definition onToken :: "string \<Rightarrow> session \<times> app_state \<Rightarrow> session \<times> app_state" where
  "onToken token = (\<lambda>(ss, st).
     (ss\<lparr>fullResponse := fullResponse ss @ token\<rparr>,
      st\<lparr>streamingContent := fullResponse ss @ token\<rparr>))"

definition onFullResponse :: "string \<Rightarrow> session \<times> app_state \<Rightarrow> session \<times> app_state" where
  "onFullResponse msg = (\<lambda>(ss, st).
     (ss\<lparr>fullResponse := msg\<rparr>, st\<lparr>streamingContent := msg\<rparr>))"

definition onDone :: "session \<times> app_state \<Rightarrow> session \<times> app_state" where
  "onDone = (\<lambda>(ss, st).
     (ss, loadVectorStats (loadConversations
            ((loadMessages (s_convId ss) st)
               \<lparr>streamingContent := [], liveTrace := [], isLoading := False\<rparr>))))"

definition onError :: "nat \<Rightarrow> string \<Rightarrow> session \<times> app_state \<Rightarrow> session \<times> app_state" where
  "onError now err = (\<lambda>(ss, st).
     (ss, st\<lparr>messages := messages st @ [error_message now (s_convId ss) err],
             isLoading := False,
             streamingContent := [],
             liveTrace := []\<rparr>))"

fun apply_event :: "nat \<Rightarrow> event \<Rightarrow> session \<times> app_state \<Rightarrow> session \<times> app_state" where
  "apply_event now Done = onDone"
| "apply_event now (Error err) = onError now err"
| "apply_event now (FullResponse msg) = onFullResponse msg"
| "apply_event now (StreamToken token) = onToken token"
| "apply_event now (Trace ev) = onTrace ev"

definition apply_events :: "nat \<Rightarrow> event list \<Rightarrow> session \<times> app_state \<Rightarrow> session \<times> app_state" where
  "apply_events now evs = fold (apply_event now) evs"

text \<open>One line of the loop over the lines: classified, and the callback called.\<close>

definition handle_line ::
  "(string \<Rightarrow> json option) \<Rightarrow> nat \<Rightarrow> string \<Rightarrow> session \<times> app_state \<Rightarrow> session \<times> app_state" where
  "handle_line parse now line sst =
     (case classify parse line of None \<Rightarrow> sst | Some ev \<Rightarrow> apply_event now ev sst)"

text \<open>
  What \<^verbatim>\<open>fetch\<close> gives: it rejects, or it answers. An answer has its status, the
  result of \<^verbatim>\<open>res.json()\<close> (\<open>None\<close> when that rejects), the chunks the reader yields
  (\<open>None\<close> when there is no body), and whether the reader fails after the last of them
  instead of reporting the end.
\<close>

record response =
  r_ok :: bool
  r_statusText :: string
  r_json :: "json option"
  r_body :: "string list option"
  r_broken :: bool

datatype fetch_outcome = Rejected | Responded response

text \<open>A call either returns or throws; either way it leaves a state behind.\<close>

datatype 'a completion = Returned 'a | Threw 'a

text \<open>
  \<^verbatim>\<open>sendChatMessage\<close> (api.ts, lines 65 to 123) from the answer of \<^verbatim>\<open>fetch\<close> on.
  One reading \<open>now\<close> of the clock serves the whole call; it only enters the id and the
  timestamp of a synthetic message.
\<close>

definition sendChatMessage ::
  "(string \<Rightarrow> json option) \<Rightarrow> nat \<Rightarrow> fetch_outcome \<Rightarrow> session \<times> app_state
     \<Rightarrow> (session \<times> app_state) completion" where
  "sendChatMessage parse now outcome sst =
     (case outcome of
        Rejected \<Rightarrow> Threw sst
      | Responded res \<Rightarrow>
          if \<not> r_ok res then
            (let err = (case r_json res of
                          None \<Rightarrow> JObj [(''detail'', JStr (r_statusText res))]
                        | Some j \<Rightarrow> j)
             in if err = JNull then Threw sst
                else Returned (onError now
                       (if truthy (get_prop err ''detail'') then js_text (get_prop err ''detail'')
                        else r_statusText res) sst))
          else (case r_body res of
                  None \<Rightarrow> Returned (onError now ''No response body'' sst)
                | Some chunks \<Rightarrow>
                    (let sst' = snd (read_loop (handle_line parse now) [] chunks sst)
                     in if r_broken res then Threw sst' else Returned sst')))"

text \<open>
  \<^verbatim>\<open>sendMessage\<close> (lines 201 to 266) as the \<^verbatim>\<open>InputBar\<close> of the render that shows
  the state calls it (line 353), so that the guard sees the \<^verbatim>\<open>isLoading\<close> of the
  state, and when nothing else happens in between: the \<^verbatim>\<open>catch\<close> only sets
  \<^verbatim>\<open>isLoading\<close> back.
\<close>

definition sendMessage ::
  "(string \<Rightarrow> json option) \<Rightarrow> nat \<Rightarrow> fetch_outcome \<Rightarrow> string \<Rightarrow> string option
     \<Rightarrow> app_state \<Rightarrow> app_state" where
  "sendMessage parse now outcome text explicitConvId st =
     (case sendMessage_begin now (isLoading st) text explicitConvId st of
        (None, st') \<Rightarrow> st'
      | (Some ss, st') \<Rightarrow>
          (case sendChatMessage parse now outcome (ss, st') of
             Returned (ss', st'') \<Rightarrow> st''
           | Threw (ss', st'') \<Rightarrow> st''\<lparr>isLoading := False\<rparr>))"

section \<open>Measures and example states\<close>

text \<open>The fragment a \<^verbatim>\<open>stream_token\<close> event carries; the other events carry none.\<close>

fun token_payload :: "event \<Rightarrow> string" where
  "token_payload (StreamToken token) = token"
| "token_payload _ = []"

text \<open>
  Two conversations, most recently updated first, and three states of the component:
  idle on conversation \<open>A\<close>; in the middle of a stream for \<open>A\<close>, after one trace event
  and one token; and the session that owns that stream.
\<close>

definition example_convs :: "conversation list" where
  "example_convs =
     [\<lparr>conv_id = ''A'', title = ''Alpha'', created_at = 1, updated_at = 10\<rparr>,
      \<lparr>conv_id = ''B'', title = ''Beta'', created_at = 2, updated_at = 5\<rparr>]"

definition example_idle :: app_state where
  "example_idle =
     \<lparr>conversations = example_convs,
      activeConvId = Some ''A'',
      messages = [],
      isLoading = False,
      streamingContent = [],
      liveTrace = [],
      requests = []\<rparr>"

definition example_trace :: json where
  "example_trace = JObj [(''event_type'', JStr ''agent_start''), (''agent_name'', JStr ''orchestrator'')]"

definition example_streaming :: app_state where
  "example_streaming =
     \<lparr>conversations = example_convs,
      activeConvId = Some ''A'',
      messages = [user_message 1000 ''A'' ''hi''],
      isLoading = True,
      streamingContent = ''Qu'',
      liveTrace = [example_trace],
      requests = [PostChat ''A'' ''hi'']\<rparr>"

text \<open>
  The component with no conversation yet, two conversations that the server creates
  one after the other, and the messages the server has stored for conversation \<open>A\<close>.
\<close>

definition example_empty :: app_state where
  "example_empty =
     \<lparr>conversations = [],
      activeConvId = None,
      messages = [],
      isLoading = False,
      streamingContent = [],
      liveTrace = [],
      requests = []\<rparr>"

definition example_new1 :: conversation where
  "example_new1 = \<lparr>conv_id = ''N1'', title = ''New Conversation'', created_at = 30, updated_at = 30\<rparr>"

definition example_new2 :: conversation where
  "example_new2 = \<lparr>conv_id = ''N2'', title = ''New Conversation'', created_at = 31, updated_at = 31\<rparr>"

definition example_stored :: "message list" where
  "example_stored =
     [\<lparr>msg_id = ''m1'', conversation_id = ''A'', role = User, content = ''hi'',
       sources = [], agent_trace = [], timestamp = 1\<rparr>,
      \<lparr>msg_id = ''m2'', conversation_id = ''A'', role = Assistant, content = ''Quantum'',
       sources = [], agent_trace = [example_trace], timestamp = 2\<rparr>]"

definition example_session :: session where
  "example_session = \<lparr>s_convId = ''A'', fullResponse = ''Qu''\<rparr>"

text \<open>A stand-in for \<^verbatim>\<open>JSON.parse\<close> that knows two payloads and rejects the rest.\<close>

definition example_parse :: "string \<Rightarrow> json option" where
  "example_parse s =
     (if s = ''{\"type\":\"stream_token\",\"message\":\"Qu\"}''
        then Some (JObj [(''type'', JStr ''stream_token''), (''message'', JStr ''Qu'')])
      else if s = ''{\"type\":\"done\"}'' then Some (JObj [(''type'', JStr ''done'')])
      else None)"

section \<open>The frame decoder does not depend on the chunks\<close>

text \<open>
  The split is never empty, a split into one piece is the text itself, and joining the
  pieces gives the text back.
\<close>

lemma js_split_nonempty: "js_split s \<noteq> []"
proof (induction s rule: js_split.induct)
  case (1 a b cs)
  show ?case by (cases "js_split (b # cs)") auto
qed auto

lemma js_split_single: "js_split s = [p] \<Longrightarrow> p = s"
proof (induction s arbitrary: p rule: js_split.induct)
  case (1 a b cs)
  show ?case
  proof (cases "a = nl \<and> b = nl")
    case True
    with 1(3) js_split_nonempty[of cs] show ?thesis by simp
  next
    case False
    obtain q qs where r0: "js_split (b # cs) = q # qs"
      using js_split_nonempty[of "b # cs"] by (cases "js_split (b # cs)") auto
    with False 1(3) have "qs = []" "p = a # q" by auto
    with r0 1(2)[OF False, of q] show ?thesis by simp
  qed
qed auto

lemma js_join_split: "js_join (js_split s) = s"
proof (induction s rule: js_split.induct)
  case (1 a b cs)
  show ?case
  proof (cases "a = nl \<and> b = nl")
    case True
    obtain q qs where "js_split cs = q # qs"
      using js_split_nonempty[of cs] by (cases "js_split cs") auto
    with True 1(1) show ?thesis by simp
  next
    case False
    obtain q qs where r0: "js_split (b # cs) = q # qs"
      using js_split_nonempty[of "b # cs"] by (cases "js_split (b # cs)") auto
    with False 1(2) show ?thesis by (cases qs) auto
  qed
qed auto

lemma js_split_append:
  "js_split (s @ t) = butlast (js_split s) @ js_split (last (js_split s) @ t)"
proof (induction s rule: js_split.induct)
  case (1 a b cs)
  show ?case
  proof (cases "a = nl \<and> b = nl")
    case True
    then have ab: "a = nl" "b = nl" by simp_all
    have "js_split (cs @ t) = butlast (js_split cs) @ js_split (last (js_split cs) @ t)"
      using 1(1)[OF True] .
    with ab js_split_nonempty[of cs] show ?thesis by simp
  next
    case False
    obtain p ps where r0: "js_split (b # cs) = p # ps"
      using js_split_nonempty[of "b # cs"] by (cases "js_split (b # cs)") auto
    have IH: "js_split (b # cs @ t) = butlast (p # ps) @ js_split (last (p # ps) @ t)"
      using 1(2)[OF False] r0 by simp
    show ?thesis
    proof (cases ps)
      case Nil
      then have "p = b # cs" using r0 js_split_single by simp
      with False Nil r0 have "js_split (a # b # cs) = [a # b # cs]" by simp
      then show ?thesis by (simp del: js_split.simps)
    next
      case (Cons q qs)
      with False r0 have whole: "js_split (a # b # cs) = (a # p) # q # qs" by simp
      from False IH Cons have "js_split (a # b # cs @ t) = (a # p) # butlast (q # qs) @ js_split (last (q # qs) @ t)"
        by simp
      with whole show ?thesis by (simp del: js_split.simps)
    qed
  qed
qed simp_all

lemma js_split_last: "js_split (last (js_split s)) = [last (js_split s)]"
proof -
  have "butlast (js_split s) @ [last (js_split s)] = butlast (js_split s) @ js_split (last (js_split s))"
    using js_split_append[of s "[]"] js_split_nonempty[of s] by simp
  then show ?thesis by simp
qed

lemma feed_eq: "feed buffer chunk = (butlast (js_split (buffer @ chunk)), last (js_split (buffer @ chunk)))"
proof -
  obtain l ls where "rev (js_split (buffer @ chunk)) = l # ls"
    using js_split_nonempty[of "buffer @ chunk"] by (cases "rev (js_split (buffer @ chunk))") auto
  moreover from this have "js_split (buffer @ chunk) = rev ls @ [l]" by (simp add: rev_swap)
  ultimately show ?thesis by (simp add: feed_def)
qed

lemma read_loop_eq:
  "js_split buffer = [buffer] \<Longrightarrow>
   read_loop h buffer chunks st =
     (last (js_split (buffer @ concat chunks)), fold h (butlast (js_split (buffer @ concat chunks))) st)"
proof (induction chunks arbitrary: buffer st)
  case Nil
  then show ?case by simp
next
  case (Cons c cs)
  let ?b = "last (js_split (buffer @ c))"
  have inv: "js_split ?b = [?b]" by (rule js_split_last)
  have app: "js_split (buffer @ c @ concat cs) = butlast (js_split (buffer @ c)) @ js_split (?b @ concat cs)"
    using js_split_append[of "buffer @ c" "concat cs"] by simp
  have ne: "js_split (?b @ concat cs) \<noteq> []" by (rule js_split_nonempty)
  show ?case
    using Cons.IH[OF inv] ne by (simp add: feed_eq app butlast_append)
qed

lemma fold_snoc: "fold (\<lambda>l acc. acc @ [l]) xs ys = ys @ xs"
  by (induction xs arbitrary: ys) auto

lemma frames_of_eq: "frames_of chunks = butlast (js_split (concat chunks))"
  using read_loop_eq[of "[]" "\<lambda>l acc. acc @ [l]" chunks "[]"]
  by (simp add: frames_of_def fold_snoc)

lemma pending_of_eq: "pending_of chunks = last (js_split (concat chunks))"
  using read_loop_eq[of "[]" "\<lambda>l acc. acc @ [l]" chunks "[]"]
  by (simp add: pending_of_def)

lemma js_split_head:
  assumes "js_split (b # cs) = p # ps"
  shows "p = [] \<or> hd p = b"
proof (cases cs)
  case Nil
  with assms show ?thesis by auto
next
  case (Cons c cs')
  with assms show ?thesis
    by (cases "js_split (c # cs')") (auto split: if_splits)
qed

lemma js_split_pieces: "p \<in> set (js_split s) \<Longrightarrow> \<not> has_delimiter p"
proof (induction s arbitrary: p rule: js_split.induct)
  case (1 a b cs)
  show ?case
  proof (cases "a = nl \<and> b = nl")
    case True
    with 1(3) have "p = [] \<or> p \<in> set (js_split cs)" by simp
    with 1(1)[OF True] show ?thesis by auto
  next
    case False
    obtain q qs where r0: "js_split (b # cs) = q # qs"
      using js_split_nonempty[of "b # cs"] by (cases "js_split (b # cs)") auto
    with False 1(3) have p: "p = a # q \<or> p \<in> set qs" by auto
    have q: "\<not> has_delimiter q" using 1(2)[OF False, of q] r0 by simp
    have aq: "\<not> has_delimiter (a # q)"
    proof (cases q)
      case Nil
      then show ?thesis by simp
    next
      case (Cons x xs)
      with js_split_head[OF r0] have "x = b" by simp
      with Cons q False show ?thesis by auto
    qed
    from p show ?thesis
    proof
      assume "p = a # q"
      with aq show ?thesis by simp
    next
      assume "p \<in> set qs"
      with 1(2)[OF False, of p] r0 show ?thesis by simp
    qed
  qed
qed simp_all

text \<open>
  C1. Two sequences of chunks of the same stream make the read loop emit the same frames,
  in the same order, and leave any treatment \<open>h\<close> of the lines with the same result: the
  loop applies \<open>h\<close> to the frames of the stream, once each and in order. The frames
  emitted, followed by the text left pending, are the pieces into which the delimiter
  splits the stream; joined by the delimiter they are the stream, so nothing of it is lost
  and nothing occurs twice. No frame holds a delimiter, and neither does the pending text,
  which is all the loop drops at the end of the stream: no complete frame is in it. A
  delimiter cut by the end of a chunk stays in the pending text until the next read
  completes it.
\<close>

theorem chunk_boundary_independence:
  assumes "concat chunks1 = concat chunks2"
  shows "frames_of chunks1 = frames_of chunks2
       \<and> snd (read_loop h [] chunks1 st) = snd (read_loop h [] chunks2 st)
       \<and> snd (read_loop h [] chunks1 st) = fold h (frames_of chunks1) st
       \<and> js_join (frames_of chunks1 @ [pending_of chunks1]) = concat chunks1
       \<and> frames_of chunks1 @ [pending_of chunks1] = js_split (concat chunks1)
       \<and> fst (read_loop h [] chunks1 st) = pending_of chunks1
       \<and> (\<forall>f \<in> set (frames_of chunks1). \<not> has_delimiter f)
       \<and> \<not> has_delimiter (pending_of chunks1)"
proof -
  have same: "frames_of chunks1 = frames_of chunks2"
    using assms by (simp add: frames_of_eq)
  have run: "snd (read_loop h [] cs st) = fold h (frames_of cs) st" for cs
    using read_loop_eq[of "[]" h cs st] by (simp add: frames_of_eq)
  have rest: "fst (read_loop h [] chunks1 st) = pending_of chunks1"
    using read_loop_eq[of "[]" h chunks1 st] by (simp add: pending_of_eq)
  have pieces: "frames_of chunks1 @ [pending_of chunks1] = js_split (concat chunks1)"
    using js_split_nonempty[of "concat chunks1"] by (simp add: frames_of_eq pending_of_eq)
  then have whole: "js_join (frames_of chunks1 @ [pending_of chunks1]) = concat chunks1"
    by (simp add: js_join_split)
  have "set (js_split (concat chunks1)) = insert (pending_of chunks1) (set (frames_of chunks1))"
    using arg_cong[OF pieces, of set] by simp
  then have clean: "\<not> has_delimiter p"
    if "p = pending_of chunks1 \<or> p \<in> set (frames_of chunks1)" for p
    using that js_split_pieces[of p "concat chunks1"] by auto
  have frames: "\<forall>f \<in> set (frames_of chunks1). \<not> has_delimiter f"
    using clean by blast
  have pend: "\<not> has_delimiter (pending_of chunks1)"
    using clean by blast
  from same run whole pieces rest frames pend show ?thesis by simp
qed

theorem chunk_boundary_independence_witness:
  "concat [''data: a'' @ [nl], [nl] @ ''data: b'' @ [nl, nl] @ ''da''] = concat [''data: a'' @ [nl, nl] @ ''da'', ''ta: b'' @ [nl], [nl] @ ''da'']
   \<and> frames_of [''data: a'' @ [nl], [nl] @ ''data: b'' @ [nl, nl] @ ''da''] = [''data: a'', ''data: b'']
   \<and> frames_of [''data: a'' @ [nl, nl] @ ''da'', ''ta: b'' @ [nl], [nl] @ ''da''] = [''data: a'', ''data: b'']
   \<and> pending_of [''data: a'' @ [nl], [nl] @ ''data: b'' @ [nl, nl] @ ''da''] = ''da''
   \<and> \<not> has_delimiter (pending_of [''data: a'' @ [nl], [nl] @ ''data: b'' @ [nl, nl] @ ''da''])"
proof -
  have h: "concat [''data: a'' @ [nl], [nl] @ ''data: b'' @ [nl, nl] @ ''da''] = concat [''data: a'' @ [nl, nl] @ ''da'', ''ta: b'' @ [nl], [nl] @ ''da'']"
    by simp
  have s: "js_split (concat [''data: a'' @ [nl], [nl] @ ''data: b'' @ [nl, nl] @ ''da'']) = [''data: a'', ''data: b'', ''da'']"
    by (simp add: nl_def)
  note t = chunk_boundary_independence [OF h, of "\<lambda>l acc. acc" "()"]
  from t have e: "frames_of [''data: a'' @ [nl], [nl] @ ''data: b'' @ [nl, nl] @ ''da'']
      = frames_of [''data: a'' @ [nl, nl] @ ''da'', ''ta: b'' @ [nl], [nl] @ ''da'']"
    by (rule conjunct1)
  from t have "frames_of [''data: a'' @ [nl], [nl] @ ''data: b'' @ [nl, nl] @ ''da'']
      @ [pending_of [''data: a'' @ [nl], [nl] @ ''data: b'' @ [nl, nl] @ ''da''] ]
      = js_split (concat [''data: a'' @ [nl], [nl] @ ''data: b'' @ [nl, nl] @ ''da''])"
    by blast
  with s have fp: "frames_of [''data: a'' @ [nl], [nl] @ ''data: b'' @ [nl, nl] @ ''da'']
      @ [pending_of [''data: a'' @ [nl], [nl] @ ''data: b'' @ [nl, nl] @ ''da''] ]
      = [''data: a'', ''data: b''] @ [''da'']"
    by (simp del: concat.simps append.simps)
  from fp have f: "frames_of [''data: a'' @ [nl], [nl] @ ''data: b'' @ [nl, nl] @ ''da''] = [''data: a'', ''data: b'']"
    and p: "pending_of [''data: a'' @ [nl], [nl] @ ''data: b'' @ [nl, nl] @ ''da''] = ''da''"
    by (simp_all only: append1_eq_conv)
  from t have d: "\<not> has_delimiter (pending_of [''data: a'' @ [nl], [nl] @ ''data: b'' @ [nl, nl] @ ''da''])"
    by blast
  from h e f p d show ?thesis by (simp del: concat.simps append.simps)
qed

section \<open>Events on the accumulators\<close>

lemma apply_event_fullResponse_keep:
  "\<forall>m. e \<noteq> FullResponse m \<Longrightarrow>
   fullResponse (fst (apply_event now e sst)) = fullResponse (fst sst) @ token_payload e"
  by (cases e; cases sst) (simp_all add: onDone_def onError_def onToken_def onTrace_def)

lemma apply_events_snoc:
  "apply_events now (evs @ [e]) sst = apply_event now e (apply_events now evs sst)"
  by (simp add: apply_events_def)

lemma apply_events_tokens:
  "\<forall>e \<in> set evs. \<forall>m. e \<noteq> FullResponse m \<Longrightarrow>
   fullResponse (fst (apply_events now evs sst)) = fullResponse (fst sst) @ concat (map token_payload evs)"
proof (induction evs rule: rev_induct)
  case Nil
  then show ?case by (simp add: apply_events_def)
next
  case (snoc e evs)
  then show ?case
    by (simp add: apply_events_snoc apply_event_fullResponse_keep)
qed

lemma apply_event_messages_keep:
  "\<forall>m. e \<noteq> Error m \<Longrightarrow> messages (snd (apply_event now e sst)) = messages (snd sst)"
  by (cases e; cases sst)
     (simp_all add: onDone_def onToken_def onTrace_def onFullResponse_def
        loadMessages_def loadConversations_def loadVectorStats_def)

lemma apply_event_convId: "s_convId (fst (apply_event now e sst)) = s_convId (fst sst)"
  by (cases e; cases sst)
     (simp_all add: onDone_def onError_def onToken_def onTrace_def onFullResponse_def)

lemma apply_events_convId: "s_convId (fst (apply_events now evs sst)) = s_convId (fst sst)"
  by (induction evs rule: rev_induct) (simp_all add: apply_events_snoc apply_event_convId, simp add: apply_events_def)

lemma apply_events_messages_keep:
  "\<forall>e \<in> set evs. \<forall>m. e \<noteq> Error m \<Longrightarrow> messages (snd (apply_events now evs sst)) = messages (snd sst)"
proof (induction evs rule: rev_induct)
  case Nil
  then show ?case by (simp add: apply_events_def)
next
  case (snoc e evs)
  then show ?case by (simp add: apply_events_snoc apply_event_messages_keep)
qed

text \<open>
  C2. In a run of events with no \<^verbatim>\<open>full_response\<close> among them, the accumulated text is
  what it was at the start (empty for a session just begun) followed by the fragments of
  the \<^verbatim>\<open>stream_token\<close> events, in their order; a \<^verbatim>\<open>stream_token\<close> event appends its
  fragment and shows the result as the streaming text; a \<^verbatim>\<open>full_response\<close> event, after
  any events, makes both exactly its payload, whatever had been accumulated.
\<close>

theorem stream_tokens_concatenate_full_response_replaces:
  "((\<forall>e \<in> set evs. \<forall>m. e \<noteq> FullResponse m) \<longrightarrow>
      fullResponse (fst (apply_events now evs sst))
        = fullResponse (fst sst) @ concat (map token_payload evs)
      \<and> streamingContent (snd (apply_events now (evs @ [StreamToken token]) sst))
        = fullResponse (fst sst) @ concat (map token_payload evs) @ token)
   \<and> streamingContent (snd (apply_events now (evs @ [StreamToken token]) sst))
       = fullResponse (fst (apply_events now evs sst)) @ token
   \<and> fullResponse (fst (apply_events now (evs @ [StreamToken token]) sst))
       = fullResponse (fst (apply_events now evs sst)) @ token
   \<and> fullResponse (fst (apply_events now (evs @ [FullResponse msg]) sst)) = msg
   \<and> streamingContent (snd (apply_events now (evs @ [FullResponse msg]) sst)) = msg"
proof -
  obtain ss st where r: "apply_events now evs sst = (ss, st)"
    by (cases "apply_events now evs sst")
  show ?thesis
    using apply_events_tokens[of evs now sst]
    by (simp add: apply_events_snoc r onToken_def onFullResponse_def)
qed

theorem stream_tokens_concatenate_full_response_replaces_witness:
  "fullResponse (fst (apply_events 1000 [Trace example_trace, StreamToken ''Quan'', StreamToken ''tum'']
        (\<lparr>s_convId = ''A'', fullResponse = []\<rparr>, example_idle))) = ''Quantum''
   \<and> streamingContent (snd (apply_events 1000
        ([Trace example_trace, StreamToken ''Quan'', StreamToken ''tum''] @ [StreamToken ''!''])
        (\<lparr>s_convId = ''A'', fullResponse = []\<rparr>, example_idle))) = ''Quantum!''
   \<and> streamingContent (snd (apply_events 1000
        ([Trace example_trace, StreamToken ''Quan'', StreamToken ''tum''] @ [FullResponse ''New''])
        (\<lparr>s_convId = ''A'', fullResponse = []\<rparr>, example_idle))) = ''New''"
proof -
  have h: "\<forall>e \<in> set [Trace example_trace, StreamToken ''Quan'', StreamToken ''tum'']. \<forall>m. e \<noteq> FullResponse m"
    by simp
  show ?thesis
    using h stream_tokens_concatenate_full_response_replaces
      [of "[Trace example_trace, StreamToken ''Quan'', StreamToken ''tum'']" 1000
          "(\<lparr>s_convId = ''A'', fullResponse = []\<rparr>, example_idle)" "''!''" "''New''"]
    by simp
qed

text \<open>
  What an \<^verbatim>\<open>error\<close> event does do, in a session begun by a submit and after events
  that are not errors: the message list is the list from before the submit, the
  optimistic user message, and one assistant message with the error prefix and the error
  text; the live trace and the streaming text shown are empty and the flag is down.
\<close>

lemma error_event_appends_one_message:
  assumes begun: "sendMessage_begin now0 seen text explicitConvId st0 = (Some ss, st1)"
    and no_error: "\<forall>e \<in> set evs. \<forall>m. e \<noteq> Error m"
  shows "messages (snd (apply_events now (evs @ [Error err]) (ss, st1)))
           = messages st0 @ [user_message now0 (s_convId ss) text, error_message now (s_convId ss) err]
       \<and> role (error_message now (s_convId ss) err) = Assistant
       \<and> content (error_message now (s_convId ss) err) = error_prefix @ err
       \<and> liveTrace (snd (apply_events now (evs @ [Error err]) (ss, st1))) = []
       \<and> streamingContent (snd (apply_events now (evs @ [Error err]) (ss, st1))) = []
       \<and> \<not> isLoading (snd (apply_events now (evs @ [Error err]) (ss, st1)))"
proof -
  from begun have m1: "messages st1 = messages st0 @ [user_message now0 (s_convId ss) text]"
    by (auto simp: sendMessage_begin_def split: option.splits if_splits)
  obtain ss' st' where r: "apply_events now evs (ss, st1) = (ss', st')"
    by (cases "apply_events now evs (ss, st1)")
  from r apply_events_messages_keep[OF no_error, of now "(ss, st1)"]
  have m2: "messages st' = messages st1" by simp
  from r apply_events_convId[of now evs "(ss, st1)"] have c: "s_convId ss' = s_convId ss" by simp
  show ?thesis
    by (simp add: apply_events_snoc r onError_def m1 m2 c error_message_def)
qed

lemma onError_keeps_fullResponse: "fullResponse (fst (onError now err (ss, st))) = fullResponse ss"
  by (simp add: onError_def)


section \<open>One session at a time\<close>

text \<open>
  The guard does its work when the closure has seen the flag set: the submit starts no
  session, sends no request and leaves the state as it was.
\<close>

lemma guard_refuses_when_flag_seen:
  "sendMessage_begin now True text explicitConvId st = (None, st)"
  by (simp add: sendMessage_begin_def split: option.splits)

lemma sendMessage_busy_is_noop: "isLoading st \<Longrightarrow> sendMessage parse now outcome text explicitConvId st = st"
  by (simp add: sendMessage_def guard_refuses_when_flag_seen)

text \<open>
  C4, at two submits from one render: no conversation is selected and the component is
  idle. The user submits \<open>q1\<close> and, before the new conversation is answered, \<open>q2\<close>; both
  calls of \<^verbatim>\<open>handleSendNoConv\<close> belong to that render, in which \<^verbatim>\<open>isLoading\<close> was
  not set. The first starts a session for \<open>N1\<close> and sets the flag. The second, in a state
  where the flag is set and that session is sending, is not refused: it starts a session
  for \<open>N2\<close>, sends a second request and appends its own optimistic message.
\<close>

theorem stale_closure_accepts_second_submit:
  "\<not> isLoading example_empty
   \<and> handleSendNoConv_begin 1000 (isLoading example_empty) (Some example_new1) ''q1'' example_empty
       = (Some \<lparr>s_convId = ''N1'', fullResponse = []\<rparr>,
          \<lparr>conversations = [example_new1], activeConvId = Some ''N1'',
           messages = [user_message 1000 ''N1'' ''q1''], isLoading = True,
           streamingContent = [], liveTrace = [], requests = [PostChat ''N1'' ''q1'']\<rparr>)
   \<and> handleSendNoConv_begin 2000 (isLoading example_empty) (Some example_new2) ''q2''
        \<lparr>conversations = [example_new1], activeConvId = Some ''N1'',
         messages = [user_message 1000 ''N1'' ''q1''], isLoading = True,
         streamingContent = [], liveTrace = [], requests = [PostChat ''N1'' ''q1'']\<rparr>
       = (Some \<lparr>s_convId = ''N2'', fullResponse = []\<rparr>,
          \<lparr>conversations = [example_new2, example_new1], activeConvId = Some ''N2'',
           messages = [user_message 2000 ''N2'' ''q2''], isLoading = True,
           streamingContent = [], liveTrace = [],
           requests = [PostChat ''N1'' ''q1'', PostChat ''N2'' ''q2'']\<rparr>)"
  by (simp add: handleSendNoConv_begin_def newConversation_def sendMessage_begin_def
      example_empty_def example_new1_def example_new2_def)

text \<open>
  C5, as stated, fails: while a session for conversation \<open>A\<close> is streaming, a submit
  addressed at conversation \<open>B\<close>, from the render that shows this state, is refused like
  any other.
\<close>

theorem submit_other_conversation_while_busy_counterexample:
  "isLoading example_streaming
   \<and> activeConvId example_streaming = Some ''A''
   \<and> sendMessage_begin 3000 (isLoading example_streaming) ''hello'' (Some ''B'') example_streaming
       = (None, example_streaming)"
  by (simp add: sendMessage_begin_def example_streaming_def)

text \<open>
  C5, amended. The limit is not per conversation: it is the one \<^verbatim>\<open>isLoading\<close> flag of
  the component. With the flag set in the render the submit comes from, a submit is
  refused whichever conversation it addresses: the state is unchanged and no request is
  sent. With the flag clear, in that render and in the state at the time of the call, a
  submit with a conversation id that is not empty is accepted whichever conversation it
  addresses: it starts a session for that conversation with an empty token accumulator of
  its own, sets the flag, appends the optimistic message, sends the request, and empties
  the one streaming text and the one live trace that all sessions write to.
\<close>

theorem single_session_is_global:
  assumes "convId \<noteq> []"
  shows "(seen \<longrightarrow> sendMessage_begin now seen text (Some convId) st = (None, st))
       \<and> (\<not> seen \<and> \<not> isLoading st \<longrightarrow>
            fst (sendMessage_begin now seen text (Some convId) st)
              = Some \<lparr>s_convId = convId, fullResponse = []\<rparr>
            \<and> isLoading (snd (sendMessage_begin now seen text (Some convId) st))
            \<and> streamingContent (snd (sendMessage_begin now seen text (Some convId) st)) = []
            \<and> liveTrace (snd (sendMessage_begin now seen text (Some convId) st)) = []
            \<and> messages (snd (sendMessage_begin now seen text (Some convId) st))
                = messages st @ [user_message now convId text]
            \<and> requests (snd (sendMessage_begin now seen text (Some convId) st))
                = requests st @ [PostChat convId text])"
  using assms by (simp add: sendMessage_begin_def)

theorem single_session_is_global_witness:
  "''B'' \<noteq> []
   \<and> sendMessage_begin 3000 True ''hello'' (Some ''B'') example_streaming = (None, example_streaming)
   \<and> fst (sendMessage_begin 3000 False ''hello'' (Some ''B'') example_idle)
       = Some \<lparr>s_convId = ''B'', fullResponse = []\<rparr>
   \<and> activeConvId example_idle = Some ''A''
   \<and> requests (snd (sendMessage_begin 3000 False ''hello'' (Some ''B'') example_idle))
       = [PostChat ''B'' ''hello'']"
proof -
  have h: "''B'' \<noteq> []" by simp
  have i: "\<not> isLoading example_idle" "activeConvId example_idle = Some ''A''"
    "requests example_idle = []"
    by (simp_all add: example_idle_def)
  show ?thesis
    using h i single_session_is_global [OF h, of True 3000 "''hello''" example_streaming]
      single_session_is_global [OF h, of False 3000 "''hello''" example_idle]
    by simp
qed

section \<open>Failures\<close>

text \<open>
  C6, at a rejected \<^verbatim>\<open>fetch\<close>: the message list ends with the optimistic user message,
  no assistant message tells of the failure, and the component is idle again. Beside it,
  the answer with a status that is not a success, which does leave the synthetic message.
\<close>

theorem fetch_rejected_leaves_no_message:
  "messages (sendMessage parse 1000 Rejected ''hi'' None example_idle) = [user_message 1000 ''A'' ''hi'']
   \<and> \<not> isLoading (sendMessage parse 1000 Rejected ''hi'' None example_idle)
   \<and> messages (sendMessage parse 1000
        (Responded \<lparr>r_ok = False, r_statusText = ''Bad Gateway'', r_json = None, r_body = None, r_broken = False\<rparr>)
        ''hi'' None example_idle)
       = [user_message 1000 ''A'' ''hi'', error_message 1000 ''A'' ''Bad Gateway'']"
  by (simp add: sendMessage_def sendMessage_begin_def sendChatMessage_def onError_def
      js_text_def example_idle_def)

text \<open>
  An answer with a status that is not a success and a body that decodes to
  \<^verbatim>\<open>null\<close> ends the same way as the rejected \<^verbatim>\<open>fetch\<close>: reading
  \<^verbatim>\<open>err.detail\<close> throws before \<^verbatim>\<open>onError\<close> is called.
\<close>

lemma non_ok_null_body_leaves_no_message:
  "messages (sendMessage parse 1000
      (Responded \<lparr>r_ok = False, r_statusText = ''Bad Gateway'', r_json = Some JNull, r_body = None,
         r_broken = False\<rparr>)
      ''hi'' None example_idle)
     = [user_message 1000 ''A'' ''hi'']"
  by (simp add: sendMessage_def sendMessage_begin_def sendChatMessage_def example_idle_def)

text \<open>
  C7. A line whose payload \<^verbatim>\<open>JSON.parse\<close> rejects gives no event and leaves the session
  and the state as they were: the token text, the trace, the messages and all the rest.
  The lines after it are handled as if it had not been there.
\<close>

theorem malformed_frame_dropped:
  assumes "parse (drop 6 (trim line)) = None"
  shows "classify parse line = None
       \<and> handle_line parse now line sst = sst
       \<and> fold (handle_line parse now) (line # rest) sst = fold (handle_line parse now) rest sst"
proof -
  from assms have c: "classify parse line = None" by (simp add: classify_def Let_def)
  then show ?thesis by (simp add: handle_line_def)
qed

theorem malformed_frame_dropped_witness:
  "example_parse (drop 6 (trim (''data: {\"type\":'' @ [nl]))) = None
   \<and> classify example_parse (''data: {\"type\":'' @ [nl]) = None
   \<and> fold (handle_line example_parse 1000)
        [''data: {\"type\":'' @ [nl], ''data: {\"type\":\"stream_token\",\"message\":\"Qu\"}'']
        (\<lparr>s_convId = ''A'', fullResponse = []\<rparr>, example_idle)
       = (\<lparr>s_convId = ''A'', fullResponse = ''Qu''\<rparr>, example_idle\<lparr>streamingContent := ''Qu''\<rparr>)"
proof -
  have h: "example_parse (drop 6 (trim (''data: {\"type\":'' @ [nl]))) = None"
    by code_simp
  have n: "handle_line example_parse 1000 ''data: {\"type\":\"stream_token\",\"message\":\"Qu\"}''
        (\<lparr>s_convId = ''A'', fullResponse = []\<rparr>, example_idle)
       = (\<lparr>s_convId = ''A'', fullResponse = ''Qu''\<rparr>, example_idle\<lparr>streamingContent := ''Qu''\<rparr>)"
    by code_simp
  show ?thesis
    using h n malformed_frame_dropped [of example_parse "''data: {\"type\":'' @ [nl]" 1000
        "(\<lparr>s_convId = ''A'', fullResponse = []\<rparr>, example_idle)"
        "[''data: {\"type\":\"stream_token\",\"message\":\"Qu\"}'']", OF h]
    by simp
qed

section \<open>Conversation store\<close>

text \<open>
  Deleting keeps the list in descending order, and so does creating when the new
  conversation is the most recent; the load on mount selects the head of the list, which
  is the most recent one when the server sent the list in that order.
\<close>

lemma delete_keeps_descending_order:
  "sorted_desc (conversations st) \<Longrightarrow> sorted_desc (conversations (deleteConversation ok i st))"
  by (auto simp: sorted_desc_def deleteConversation_def Let_def loadMessages_def
      sorted_wrt_filter split: list.splits)

lemma mount_load_selects_first:
  "mount_load (Some (c # cs)) st = st' \<Longrightarrow>
   conversations st' = c # cs \<and> activeConvId st' = Some (conv_id c)
   \<and> (sorted_desc (c # cs) \<longrightarrow> (\<forall>d \<in> set cs. updated_at d \<le> updated_at c))"
  by (auto simp: mount_load_def loadMessages_def loadVectorStats_def sorted_desc_def Let_def)

lemma create_keeps_descending_order:
  "sorted_desc (conversations st) \<Longrightarrow> \<forall>c \<in> set (conversations st). updated_at c \<le> updated_at conv \<Longrightarrow>
   sorted_desc (conversations (snd (newConversation (Some conv) st)))"
  by (simp add: sorted_desc_def newConversation_def)

text \<open>
  C8, at a rename: the list is in descending order before; the rename stamps the second
  conversation with the current time and leaves it second, behind an older one.
\<close>

theorem rename_breaks_descending_order:
  "sorted_desc (conversations example_idle)
   \<and> conversations (renameConversation True 20000 ''B'' ''Gamma'' example_idle)
       = [\<lparr>conv_id = ''A'', title = ''Alpha'', created_at = 1, updated_at = 10\<rparr>,
          \<lparr>conv_id = ''B'', title = ''Gamma'', created_at = 2, updated_at = 20\<rparr>]
   \<and> \<not> sorted_desc (conversations (renameConversation True 20000 ''B'' ''Gamma'' example_idle))"
  by (simp add: sorted_desc_def renameConversation_def example_idle_def example_convs_def)

text \<open>
  C9, as stated, fails twice. Selecting conversation \<open>B\<close> while a session streams for
  \<open>A\<close> empties the live trace and the streaming text: the trace event received before
  the selection is gone when the next one arrives. And the messages are not keyed by
  conversation: the component holds one list. The messages of \<open>B\<close> (none) arrive and
  replace it, dropping the optimistic user message; then \<^verbatim>\<open>done\<close> arrives, the reload
  for \<open>A\<close> is answered, and the list is the messages of \<open>A\<close> while \<open>B\<close> is selected.
\<close>

theorem select_clears_live_trace_counterexample:
  "isLoading example_streaming
   \<and> liveTrace example_streaming = [example_trace]
   \<and> streamingContent example_streaming = ''Qu''
   \<and> liveTrace (selectConversation ''B'' example_streaming) = []
   \<and> streamingContent (selectConversation ''B'' example_streaming) = []
   \<and> liveTrace (snd (onTrace (JStr ''next'') (example_session, selectConversation ''B'' example_streaming)))
       = [JStr ''next'']
   \<and> messages example_streaming = [user_message 1000 ''A'' ''hi'']
   \<and> messages (loadMessages_resolved (Some []) (selectConversation ''B'' example_streaming)) = []
   \<and> messages (loadMessages_resolved (Some example_stored)
        (snd (onDone (example_session,
           loadMessages_resolved (Some []) (selectConversation ''B'' example_streaming)))))
       = example_stored
   \<and> activeConvId (loadMessages_resolved (Some example_stored)
        (snd (onDone (example_session,
           loadMessages_resolved (Some []) (selectConversation ''B'' example_streaming)))))
       = Some ''B''
   \<and> map conversation_id example_stored = [''A'', ''A'']"
  by (simp add: selectConversation_def loadMessages_def loadMessages_resolved_def
      loadConversations_def loadVectorStats_def onTrace_def onDone_def
      example_streaming_def example_stored_def)

text \<open>
  C9, amended. Selecting a conversation while a session streams does not end the session
  (the flag stays as it is) and leaves the session's own token accumulator intact: the next
  token is appended to it and shown. It empties the shared live trace and streaming text
  and requests the messages of the selected conversation. When \<^verbatim>\<open>done\<close> arrives, the
  reload is requested for the conversation id the session was begun with. The answer to
  either request replaces the one message list the component holds, whichever conversation
  is selected; a request that fails leaves it. Neither \<^verbatim>\<open>done\<close> nor the arrival of
  reloaded messages changes the selection.
\<close>

theorem select_while_streaming:
  "isLoading (selectConversation i st) = isLoading st
   \<and> conversations (selectConversation i st) = conversations st
   \<and> activeConvId (selectConversation i st) = Some i
   \<and> liveTrace (selectConversation i st) = []
   \<and> streamingContent (selectConversation i st) = []
   \<and> requests (selectConversation i st) = requests st @ [GetMessages i]
   \<and> fst (onToken token (ss, selectConversation i st)) = ss\<lparr>fullResponse := fullResponse ss @ token\<rparr>
   \<and> streamingContent (snd (onToken token (ss, selectConversation i st))) = fullResponse ss @ token
   \<and> activeConvId (snd (onDone (ss, selectConversation i st))) = Some i
   \<and> requests (snd (onDone (ss, selectConversation i st)))
       = requests st @ [GetMessages i, GetMessages (s_convId ss), ListConversations, GetHealth]
   \<and> activeConvId (loadMessages_resolved res (snd (onDone (ss, selectConversation i st)))) = Some i
   \<and> messages (loadMessages_resolved (Some msgs) (snd (onDone (ss, selectConversation i st)))) = msgs
   \<and> messages (loadMessages_resolved (Some msgs) (selectConversation i st)) = msgs
   \<and> messages (loadMessages_resolved None (selectConversation i st)) = messages st"
  by (simp add: selectConversation_def loadMessages_def loadConversations_def loadVectorStats_def
      loadMessages_resolved_def onToken_def onDone_def split: option.splits)

theorem select_while_streaming_witness:
  "activeConvId (selectConversation ''B'' example_streaming) = Some ''B''
   \<and> streamingContent (snd (onToken ''an'' (example_session, selectConversation ''B'' example_streaming)))
       = ''Quan''
   \<and> requests (snd (onDone (example_session, selectConversation ''B'' example_streaming)))
       = [PostChat ''A'' ''hi'', GetMessages ''B'', GetMessages ''A'', ListConversations, GetHealth]
   \<and> activeConvId (loadMessages_resolved (Some example_stored)
        (snd (onDone (example_session, selectConversation ''B'' example_streaming)))) = Some ''B''
   \<and> messages (loadMessages_resolved (Some example_stored)
        (snd (onDone (example_session, selectConversation ''B'' example_streaming)))) = example_stored"
proof -
  have r: "requests example_streaming = [PostChat ''A'' ''hi'']"
    by (simp add: example_streaming_def)
  have s: "fullResponse example_session = ''Qu''" "s_convId example_session = ''A''"
    by (simp_all add: example_session_def)
  show ?thesis
    using r s select_while_streaming
      [of "''B''" example_streaming "''an''" example_session "Some example_stored" example_stored]
    by simp
qed

text \<open>
  C10. A successful delete removes from the list the conversations with the given id and
  no other, in place. When that id is not the active one, the selection, the messages and
  the requests sent are as before. When it is, the selection becomes the first
  conversation left, or none when the list is empty.
\<close>

theorem delete_frame:
  "conversations (deleteConversation True i st) = filter (\<lambda>c. conv_id c \<noteq> i) (conversations st)
   \<and> (activeConvId st \<noteq> Some i \<longrightarrow>
        activeConvId (deleteConversation True i st) = activeConvId st
        \<and> messages (deleteConversation True i st) = messages st
        \<and> requests (deleteConversation True i st) = requests st)
   \<and> (activeConvId st = Some i \<longrightarrow>
        activeConvId (deleteConversation True i st)
          = (case filter (\<lambda>c. conv_id c \<noteq> i) (conversations st) of
               [] \<Rightarrow> None | c # _ \<Rightarrow> Some (conv_id c)))"
  by (simp add: deleteConversation_def Let_def loadMessages_def split: list.splits)

theorem delete_frame_witness:
  "activeConvId example_idle \<noteq> Some ''B''
   \<and> conversations (deleteConversation True ''B'' example_idle)
       = [\<lparr>conv_id = ''A'', title = ''Alpha'', created_at = 1, updated_at = 10\<rparr>]
   \<and> activeConvId (deleteConversation True ''B'' example_idle) = Some ''A''
   \<and> messages (deleteConversation True ''B'' example_idle) = messages example_idle
   \<and> activeConvId example_idle = Some ''A''
   \<and> activeConvId (deleteConversation True ''A'' example_idle) = Some ''B''
   \<and> activeConvId (deleteConversation True ''A'' (deleteConversation True ''B'' example_idle)) = None"
proof -
  have h1: "activeConvId example_idle \<noteq> Some ''B''" by (simp add: example_idle_def)
  have h2: "activeConvId example_idle = Some ''A''" by (simp add: example_idle_def)
  have c: "conversations example_idle = example_convs" by (simp add: example_idle_def)
  have h3: "activeConvId (deleteConversation True ''B'' example_idle) = Some ''A''"
    using h1 h2 delete_frame [of "''B''" example_idle] by simp
  show ?thesis
    using h1 h2 h3 c delete_frame [of "''B''" example_idle] delete_frame [of "''A''" example_idle]
      delete_frame [of "''A''" "deleteConversation True ''B'' example_idle"]
    by (simp add: example_convs_def)
qed

end
